theory Spec2Isabelle
  imports Main "HOL-Library.Sublist"
begin

section \<open>The slot lookup of the appointment application\<close>

text \<open>
  This theory embeds the view \<^verbatim>\<open>get_available_slots\<close> of
  \<^verbatim>\<open>src/appointment/views.py\<close>: the lookup that lists the free time slots of a
  doctor on one date.

  Conventions of the embedding.
  \<^item> A time of day (\<^verbatim>\<open>datetime.time\<close>, a \<^verbatim>\<open>TimeField\<close>) is a natural number of
    minutes after midnight; the forms of the application submit \<^verbatim>\<open>HH:MM\<close>. Every
    \<^verbatim>\<open>datetime\<close> of the view is \<^verbatim>\<open>datetime.combine(date, t)\<close> for the one requested
    date, so it is the same number of minutes, counted from the midnight of that date.
  \<^item> A date is its proleptic ordinal, as \<^verbatim>\<open>date.toordinal()\<close> gives it; the last
    date of Python is 9999-12-31, of ordinal 3652059.
  \<^item> An exception is a value: a loop that raises returns \<open>None\<close>, and the view
    answers with an error, \<open>Inl\<close>. The one exception inside the computation is the
    \<^verbatim>\<open>OverflowError\<close> of \<^verbatim>\<open>datetime + timedelta\<close> past the last date, which the view
    catches with \<^verbatim>\<open>except Exception\<close> and answers with HTTP 500.
  \<^item> The ORM queries are the boundary of the model. The rows they return are fields of
    \<open>request\<close>, in the order of the queryset, and so is the reading of the clock that
    \<^verbatim>\<open>timezone.now()\<close> returns.
\<close>

subsection \<open>Data\<close>

text \<open>
  The two fields \<^verbatim>\<open>start_time\<close> and \<^verbatim>\<open>end_time\<close>, which are all the view reads of
  an \<^verbatim>\<open>Appointment\<close>, a \<^verbatim>\<open>DoctorLeaveRequest\<close> and a \<^verbatim>\<open>DoctorAvailability\<close>.
\<close>

record time_range =
  start_time :: nat
  end_time :: nat

text \<open>What the view reads of \<^verbatim>\<open>timezone.now()\<close>: its date, hour and minute.\<close>

record clock =
  now_date :: nat
  now_hour :: nat
  now_minute :: nat

text \<open>One entry of the list \<^verbatim>\<open>available_slots\<close>: the keys start, end and display.\<close>

record slot =
  start :: string
  end' :: string
  display :: string

text \<open>
  The request, with what the framework makes of it: whether the method is GET, the two
  query parameters (\<^verbatim>\<open>request.GET.get\<close> gives \<^verbatim>\<open>None\<close> for a missing one), the
  emergency flag, whether \<^verbatim>\<open>User.objects.get\<close> finds the doctor, the date
  \<^verbatim>\<open>strptime\<close> parses (or \<open>None\<close> when it raises \<^verbatim>\<open>ValueError\<close>), the scheduled and
  confirmed appointments of the doctor on the date, the approved leave requests that
  span the date, whether the doctor has any availability row, the availability rows of
  the date's weekday, and the clock.
\<close>

record request =
  method_GET :: bool
  doctor_id :: "string option"
  date_str :: "string option"
  is_emergency :: bool
  doctor_found :: bool
  date_parsed :: "nat option"
  existing_appointments :: "time_range list"
  approved_leaves :: "time_range list"
  doctor_has_slots :: bool
  day_slots :: "time_range list"
  now :: clock

text \<open>
  The four error answers of the view: HTTP 400 with \<^verbatim>\<open>Missing parameters\<close>, with
  \<^verbatim>\<open>Invalid parameters\<close> or with \<^verbatim>\<open>Invalid request\<close>, and HTTP 500 with
  \<^verbatim>\<open>Error processing request\<close>.
\<close>

datatype error = Missing_parameters | Invalid_parameters | Invalid_request | Error_processing

record response =
  slots :: "slot list"
  message :: "string option"
  warning :: "string option"

subsection \<open>Formatting\<close>

text \<open>\<^verbatim>\<open>strftime('%H:%M')\<close>: hour and minute, each as two decimal digits.\<close>

definition two_digits :: "nat \<Rightarrow> string" where
  "two_digits n = [''0123456789'' ! (n div 10), ''0123456789'' ! (n mod 10)]"

definition strftime_HM :: "nat \<Rightarrow> string" where
  "strftime_HM t = two_digits (t div 60) @ '':'' @ two_digits (t mod 60)"

text \<open>
  The dictionary appended for a free slot; \<open>tag\<close> is \<^verbatim>\<open>" (Emergency)"\<close> in the
  emergency branch and empty elsewhere.
\<close>

definition slot_dict :: "string \<Rightarrow> nat \<times> nat \<Rightarrow> slot" where
  "slot_dict tag = (\<lambda>(slot_start, slot_end).
     \<lparr>start = strftime_HM slot_start,
      end' = strftime_HM slot_end,
      display = strftime_HM slot_start @ '' - '' @ strftime_HM slot_end @ tag\<rparr>)"

subsection \<open>The loops\<close>

text \<open>
  The inner loop over the appointments:
  \<^verbatim>\<open>is_available = True; for appt in existing_appointments: if slot_start < appt_end and slot_end > appt_start: is_available = False; break\<close>.
\<close>

fun is_available :: "nat \<Rightarrow> nat \<Rightarrow> time_range list \<Rightarrow> bool" where
  "is_available slot_start slot_end [] = True"
| "is_available slot_start slot_end (appt # rest) =
     (if slot_start < end_time appt \<and> slot_end > start_time appt then False
      else is_available slot_start slot_end rest)"

text \<open>
  The test of the leave branch, \<^verbatim>\<open>slot_start_time < leave_end and slot_end_time > leave_start\<close>.
  The three other loops have no such test: they run with \<open>None\<close>.
\<close>

definition overlaps_leave :: "time_range option \<Rightarrow> nat \<Rightarrow> nat \<Rightarrow> bool" where
  "overlaps_leave doctor_leave slot_start slot_end =
     (case doctor_leave of
        None \<Rightarrow> False
      | Some leave \<Rightarrow> slot_start < end_time leave \<and> slot_end > start_time leave)"

text \<open>
  The view has four copies of one while loop, which differ in the step (15 or 30
  minutes), in the window and in the leave test. \<open>slot_loop\<close> is that loop, in a run
  where no addition raises; it returns the pairs \<open>(slot_start, slot_end)\<close> for which
  the view appends a dictionary, in the order of the appends. The step is the literal 15
  or 30 at every call; the conjunct \<open>0 < minutes\<close> only makes the recursion
  well-founded for every argument.
\<close>

function slot_loop ::
  "nat \<Rightarrow> time_range option \<Rightarrow> time_range list \<Rightarrow> nat \<Rightarrow> nat \<Rightarrow> (nat \<times> nat) list" where
  "slot_loop minutes doctor_leave appts slot_start end_datetime =
     (if slot_start < end_datetime \<and> 0 < minutes then
        (let slot_end = (if slot_start + minutes > end_datetime then end_datetime
                         else slot_start + minutes)
         in (if overlaps_leave doctor_leave slot_start slot_end then []
             else if is_available slot_start slot_end appts then [(slot_start, slot_end)]
             else [])
            @ slot_loop minutes doctor_leave appts slot_end end_datetime)
      else [])"
  by pat_completeness auto
termination
  by (relation "measure (\<lambda>(minutes, doctor_leave, appts, slot_start, end_datetime).
        end_datetime - slot_start)") auto

declare slot_loop.simps [simp del]

text \<open>
  The candidate sub-intervals: every pair \<open>(slot_start, slot_end)\<close> the while loop
  visits, whether it is kept or not.
\<close>

function candidates :: "nat \<Rightarrow> nat \<Rightarrow> nat \<Rightarrow> (nat \<times> nat) list" where
  "candidates minutes slot_start end_datetime =
     (if slot_start < end_datetime \<and> 0 < minutes then
        (let slot_end = (if slot_start + minutes > end_datetime then end_datetime
                         else slot_start + minutes)
         in (slot_start, slot_end) # candidates minutes slot_end end_datetime)
      else [])"
  by pat_completeness auto
termination
  by (relation "measure (\<lambda>(minutes, slot_start, end_datetime).
        end_datetime - slot_start)") auto

declare candidates.simps [simp del]

subsection \<open>The loop on a date\<close>

text \<open>The ordinal of 9999-12-31, the last day a \<^verbatim>\<open>datetime\<close> can hold.\<close>

definition date_max :: nat where
  "date_max = 3652059"

text \<open>
  \<^verbatim>\<open>datetime.combine(date, t) + datetime.timedelta(minutes=...)\<close>, as minutes after the
  midnight of \<open>date\<close>. The sum lies \<open>(t + minutes) div 1440\<close> days after \<open>date\<close>;
  when that day is past 9999-12-31, Python raises \<^verbatim>\<open>OverflowError\<close>, here \<open>None\<close>.
\<close>

definition plus_timedelta :: "nat \<Rightarrow> nat \<Rightarrow> nat \<Rightarrow> nat option" where
  "plus_timedelta date t minutes =
     (if date + (t + minutes) div 1440 > date_max then None else Some (t + minutes))"

text \<open>
  The while loop as it runs on the requested date: the addition comes first in the body
  and may raise, which ends the loop and the view's \<^verbatim>\<open>try\<close> block; the result is then
  \<open>None\<close>, whatever had been appended.
\<close>

function run_loop ::
  "nat \<Rightarrow> nat \<Rightarrow> time_range option \<Rightarrow> time_range list \<Rightarrow> nat \<Rightarrow> nat \<Rightarrow>
   (nat \<times> nat) list option" where
  "run_loop date minutes doctor_leave appts slot_start end_datetime =
     (if slot_start < end_datetime \<and> 0 < minutes then
        (case plus_timedelta date slot_start minutes of
           None \<Rightarrow> None
         | Some added \<Rightarrow>
             (let slot_end = (if added > end_datetime then end_datetime else added)
              in case run_loop date minutes doctor_leave appts slot_end end_datetime of
                   None \<Rightarrow> None
                 | Some rest \<Rightarrow>
                     Some ((if overlaps_leave doctor_leave slot_start slot_end then []
                            else if is_available slot_start slot_end appts
                              then [(slot_start, slot_end)]
                            else [])
                           @ rest)))
      else Some [])"
  by pat_completeness auto
termination
  by (relation "measure (\<lambda>(date, minutes, doctor_leave, appts, slot_start, end_datetime).
        end_datetime - slot_start)")
    (auto simp: plus_timedelta_def split: if_splits)

declare run_loop.simps [simp del]

subsection \<open>The view\<close>

text \<open>\<^verbatim>\<open>.first()\<close> of a queryset.\<close>

definition first :: "'a list \<Rightarrow> 'a option" where
  "first rows = (case rows of [] \<Rightarrow> None | row # _ \<Rightarrow> Some row)"

text \<open>
  The slot added when the emergency loop has kept nothing and the date is today: it
  starts at the current hour and the current minute rounded down to a quarter, and ends
  15 minutes later as a time of day (\<^verbatim>\<open>.time()\<close> drops the date of the sum).
\<close>

definition emergency_fallback :: "nat \<Rightarrow> clock \<Rightarrow> (nat \<times> nat) option" where
  "emergency_fallback date n =
     (let current_hour = now_hour n;
          current_minute = (now_minute n div 15) * 15;
          emergency_start = current_hour * 60 + current_minute
      in case plus_timedelta date emergency_start 15 of
           None \<Rightarrow> None
         | Some added \<Rightarrow> Some (emergency_start, added mod 1440))"

text \<open>The emergency branch: the whole day in steps of 15 minutes, then the fallback.\<close>

definition emergency_slots :: "request \<Rightarrow> nat \<Rightarrow> (nat \<times> nat) list option" where
  "emergency_slots r date =
     (case run_loop date 15 None (existing_appointments r) 0 (23 * 60 + 59) of
        None \<Rightarrow> None
      | Some available_slots \<Rightarrow>
          if available_slots = [] then
            (if date = now_date (now r) then
               (case emergency_fallback date (now r) of
                  None \<Rightarrow> None
                | Some emergency_slot \<Rightarrow> Some [emergency_slot])
             else Some [])
          else Some available_slots)"

text \<open>The branch of a doctor on approved leave: 08:00 to 22:00 in steps of 30 minutes.\<close>

definition leave_slots :: "request \<Rightarrow> nat \<Rightarrow> time_range \<Rightarrow> (nat \<times> nat) list option" where
  "leave_slots r date doctor_leave =
     run_loop date 30 (Some doctor_leave) (existing_appointments r) (8 * 60) (22 * 60)"

text \<open>
  The branch of the doctor's own availability rows: \<^verbatim>\<open>for slot in day_slots\<close>, one loop
  for each row, all appending to the same list.
\<close>

fun availability_loops ::
  "nat \<Rightarrow> time_range list \<Rightarrow> time_range list \<Rightarrow> (nat \<times> nat) list option" where
  "availability_loops date appts [] = Some []"
| "availability_loops date appts (slot # rest) =
     (case run_loop date 30 None appts (start_time slot) (end_time slot) of
        None \<Rightarrow> None
      | Some intervals \<Rightarrow>
          (case availability_loops date appts rest of
             None \<Rightarrow> None
           | Some later \<Rightarrow> Some (intervals @ later)))"

definition availability_slots :: "request \<Rightarrow> nat \<Rightarrow> (nat \<times> nat) list option" where
  "availability_slots r date = availability_loops date (existing_appointments r) (day_slots r)"

text \<open>The standard hours: 08:00 to 22:00 in steps of 30 minutes.\<close>

definition standard_slots :: "request \<Rightarrow> nat \<Rightarrow> (nat \<times> nat) list option" where
  "standard_slots r date =
     run_loop date 30 None (existing_appointments r) (8 * 60) (22 * 60)"

text \<open>A query parameter that Python takes for false: absent or the empty string.\<close>

definition missing :: "string option \<Rightarrow> bool" where
  "missing p = (p = None \<or> p = Some [])"

text \<open>
  The view. The checks of the method and of the parameters come first; the lookup of
  the doctor and the parsing of the date answer 400 when they raise; an exception inside
  a loop answers 500.
\<close>

definition get_available_slots :: "request \<Rightarrow> error + response" where
  "get_available_slots r =
     (if \<not> method_GET r then Inl Invalid_request
      else if missing (doctor_id r) \<or> missing (date_str r) then Inl Missing_parameters
      else if \<not> doctor_found r then Inl Invalid_parameters
      else case date_parsed r of
        None \<Rightarrow> Inl Invalid_parameters
      | Some date \<Rightarrow>
          if is_emergency r then
            (case emergency_slots r date of
               None \<Rightarrow> Inl Error_processing
             | Some available_slots \<Rightarrow>
                 Inr \<lparr>slots = map (slot_dict '' (Emergency)'') available_slots,
                      message = Some ''Emergency appointments are available 24/7'',
                      warning = None\<rparr>)
          else
            (case first (approved_leaves r) of
               Some doctor_leave \<Rightarrow>
                 (case leave_slots r date doctor_leave of
                    None \<Rightarrow> Inl Error_processing
                  | Some available_slots \<Rightarrow>
                      Inr \<lparr>slots = map (slot_dict []) available_slots,
                           message = None,
                           warning = Some ''Doctor is on partial leave for this day. Some time slots may not be available.''\<rparr>)
             | None \<Rightarrow>
                 if doctor_has_slots r \<and> day_slots r \<noteq> [] then
                   (case availability_slots r date of
                      None \<Rightarrow> Inl Error_processing
                    | Some available_slots \<Rightarrow>
                        Inr \<lparr>slots = map (slot_dict []) available_slots,
                             message = None, warning = None\<rparr>)
                 else
                   (case standard_slots r date of
                      None \<Rightarrow> Inl Error_processing
                    | Some available_slots \<Rightarrow>
                        Inr \<lparr>slots = map (slot_dict []) available_slots,
                             message = (if available_slots = [] then
                               Some ''No time slots available for the selected date and doctor.''
                               else None),
                             warning = None\<rparr>)))"

subsection \<open>Notions used in the statements\<close>

text \<open>
  A list of slots is increasing within a window when each slot starts before it ends and
  lies between the window's bounds, and each later slot starts after the start of, and
  not before the end of, every earlier one.
\<close>

definition increasing_within :: "nat \<Rightarrow> nat \<Rightarrow> (nat \<times> nat) list \<Rightarrow> bool" where
  "increasing_within open_time close_time xs \<longleftrightarrow>
     sorted_wrt (\<lambda>x y. fst x < fst y \<and> snd x \<le> fst y) xs \<and>
     (\<forall>x\<in>set xs. open_time \<le> fst x \<and> fst x < snd x \<and> snd x \<le> close_time)"

text \<open>A time point lies in one of the slots, or in one of the rows, read as half-open.\<close>

definition covered :: "nat \<Rightarrow> (nat \<times> nat) list \<Rightarrow> bool" where
  "covered t xs \<longleftrightarrow> (\<exists>x\<in>set xs. fst x \<le> t \<and> t < snd x)"

definition booked_at :: "nat \<Rightarrow> time_range list \<Rightarrow> bool" where
  "booked_at t rows \<longleftrightarrow> (\<exists>row\<in>set rows. start_time row \<le> t \<and> t < end_time row)"

text \<open>One of the additions of the loop raises on that date.\<close>

definition raises :: "nat \<Rightarrow> nat \<Rightarrow> nat \<Rightarrow> nat \<Rightarrow> bool" where
  "raises date minutes slot_start end_datetime \<longleftrightarrow>
     (\<exists>c\<in>set (candidates minutes slot_start end_datetime).
        plus_timedelta date (fst c) minutes = None)"

text \<open>
  A request passes the checks of the view when it is a GET with both parameters, the
  doctor exists and the date parses.
\<close>

definition accepted :: "request \<Rightarrow> bool" where
  "accepted r \<longleftrightarrow>
     method_GET r \<and> \<not> missing (doctor_id r) \<and> \<not> missing (date_str r) \<and>
     doctor_found r \<and> date_parsed r \<noteq> None"

text \<open>
  The fields of a request hold Python values: a \<^verbatim>\<open>datetime.time\<close> is before 24:00, the
  hour of the clock is below 24 and its minute below 60, and a \<^verbatim>\<open>datetime.date\<close> is not
  after 9999-12-31.
\<close>

definition well_typed :: "request \<Rightarrow> bool" where
  "well_typed r \<longleftrightarrow>
     list_all (\<lambda>row. start_time row < 1440 \<and> end_time row < 1440)
       (existing_appointments r @ approved_leaves r @ day_slots r) \<and>
     now_hour (now r) < 24 \<and> now_minute (now r) < 60 \<and> now_date (now r) \<le> date_max \<and>
     (case date_parsed r of None \<Rightarrow> True | Some date \<Rightarrow> date \<le> date_max)"

subsection \<open>Example requests\<close>

text \<open>
  A request for doctor 7 on 2025-03-10 (ordinal 739320), with the clock at 08:10 of that
  day, no appointment, no leave and no availability row.
\<close>

definition plain_request :: request where
  "plain_request =
     \<lparr>method_GET = True, doctor_id = Some ''7'', date_str = Some ''2025-03-10'',
      is_emergency = False, doctor_found = True, date_parsed = Some 739320,
      existing_appointments = [], approved_leaves = [], doctor_has_slots = False,
      day_slots = [], now = \<lparr>now_date = 739320, now_hour = 8, now_minute = 10\<rparr>\<rparr>"

text \<open>The plain request as an emergency.\<close>

definition emergency_request :: request where
  "emergency_request = plain_request\<lparr>is_emergency := True\<rparr>"

text \<open>
  The same doctor in an emergency, booked from 00:00 to 23:59 by one emergency
  appointment: the request for today, the request for the day after, the request for
  today with the clock at 09:20 and at 23:50, and the request for 9999-12-31.
\<close>

definition booked_today :: request where
  "booked_today =
     plain_request\<lparr>is_emergency := True,
       existing_appointments := [\<lparr>start_time = 0, end_time = 1439\<rparr>]\<rparr>"

definition booked_tomorrow :: request where
  "booked_tomorrow =
     booked_today\<lparr>date_str := Some ''2025-03-11'', date_parsed := Some 739321\<rparr>"

definition booked_today_later :: request where
  "booked_today_later =
     booked_today\<lparr>now := \<lparr>now_date = 739320, now_hour = 9, now_minute = 20\<rparr>\<rparr>"

definition booked_today_late :: request where
  "booked_today_late =
     booked_today\<lparr>now := \<lparr>now_date = 739320, now_hour = 23, now_minute = 50\<rparr>\<rparr>"

definition booked_last_day :: request where
  "booked_last_day =
     booked_today\<lparr>date_str := Some ''9999-12-31'', date_parsed := Some 3652059\<rparr>"

text \<open>The plain request without the parameter \<^verbatim>\<open>doctor_id\<close>.\<close>

definition no_doctor_request :: request where
  "no_doctor_request = plain_request\<lparr>doctor_id := None\<rparr>"

text \<open>The plain request sent with another method than GET.\<close>

definition post_request :: request where
  "post_request = plain_request\<lparr>method_GET := False\<rparr>"

text \<open>One appointment from 08:10 to 08:20.\<close>

definition short_appointment_request :: request where
  "short_appointment_request =
     plain_request\<lparr>existing_appointments := [\<lparr>start_time = 490, end_time = 500\<rparr>]\<rparr>"

text \<open>The same request with the clock one day and some hours later.\<close>

definition short_appointment_later :: request where
  "short_appointment_later =
     short_appointment_request\<lparr>now := \<lparr>now_date = 739321, now_hour = 17, now_minute = 5\<rparr>\<rparr>"

text \<open>
  Two approved leaves on the date, the newer from 08:00 to 10:00 and the older from
  14:00 to 16:00 (the queryset is ordered by \<^verbatim>\<open>-created_at\<close>).
\<close>

definition two_leaves_request :: request where
  "two_leaves_request =
     plain_request\<lparr>approved_leaves :=
       [\<lparr>start_time = 480, end_time = 600\<rparr>, \<lparr>start_time = 840, end_time = 960\<rparr>]\<rparr>"

section \<open>Properties\<close>

subsection \<open>Unfolding the loops\<close>

lemma candidates_stop: "\<not> (s < e \<and> 0 < g) \<Longrightarrow> candidates g s e = []"
  by (subst candidates.simps) auto

lemma candidates_step:
  "s < e \<and> 0 < g \<Longrightarrow>
   candidates g s e =
     (s, if s + g > e then e else s + g) # candidates g (if s + g > e then e else s + g) e"
  by (subst candidates.simps) (simp add: Let_def)

lemma slot_loop_stop: "\<not> (s < e \<and> 0 < g) \<Longrightarrow> slot_loop g l appts s e = []"
  by (subst slot_loop.simps) auto

lemma slot_loop_step:
  "s < e \<and> 0 < g \<Longrightarrow>
   slot_loop g l appts s e =
     (if overlaps_leave l s (if s + g > e then e else s + g) then []
      else if is_available s (if s + g > e then e else s + g) appts
        then [(s, if s + g > e then e else s + g)] else [])
     @ slot_loop g l appts (if s + g > e then e else s + g) e"
  by (subst slot_loop.simps) (simp add: Let_def)

lemma is_available_iff:
  "is_available s e appts \<longleftrightarrow> (\<forall>a\<in>set appts. \<not> (s < end_time a \<and> e > start_time a))"
  by (induction appts) auto

text \<open>The loop keeps exactly the candidates that pass the two tests, in their order.\<close>

lemma slot_loop_filter:
  "slot_loop g l appts s e =
     filter (\<lambda>(a, b). \<not> overlaps_leave l a b \<and> is_available a b appts) (candidates g s e)"
proof (induction g s e rule: candidates.induct)
  case (1 g s e)
  show ?case
  proof (cases "s < e \<and> 0 < g")
    case True
    show ?thesis
      unfolding slot_loop_step [OF True] candidates_step [OF True]
      using "1.IH" [OF True refl] by simp
  next
    case False
    then show ?thesis
      by (simp add: slot_loop_stop candidates_stop)
  qed
qed

lemma candidates_bounds:
  "(a, b) \<in> set (candidates g s e) \<Longrightarrow>
     s \<le> a \<and> a < b \<and> b \<le> e \<and> (b = a + g \<or> (b = e \<and> e < a + g))"
proof (induction g s e rule: candidates.induct)
  case (1 g s e)
  show ?case
  proof (cases "s < e \<and> 0 < g")
    case True
    let ?se = "if s + g > e then e else s + g"
    from "1.prems" have "(a, b) = (s, ?se) \<or> (a, b) \<in> set (candidates g ?se e)"
      unfolding candidates_step [OF True] by simp
    then show ?thesis
    proof
      assume "(a, b) = (s, ?se)"
      with True show ?thesis by (auto split: if_splits)
    next
      assume "(a, b) \<in> set (candidates g ?se e)"
      from "1.IH" [OF True refl this] True show ?thesis by (auto split: if_splits)
    qed
  next
    case False
    with "1.prems" show ?thesis
      by (simp add: candidates_stop)
  qed
qed

lemma candidates_sorted:
  "sorted_wrt (\<lambda>x y. fst x < fst y \<and> snd x \<le> fst y) (candidates g s e)"
proof (induction g s e rule: candidates.induct)
  case (1 g s e)
  show ?case
  proof (cases "s < e \<and> 0 < g")
    case True
    let ?se = "if s + g > e then e else s + g"
    have "\<forall>y\<in>set (candidates g ?se e). s < fst y \<and> ?se \<le> fst y"
      using True by (auto dest: candidates_bounds split: if_splits)
    with "1.IH" [OF True refl] show ?thesis
      unfolding candidates_step [OF True] by simp
  next
    case False
    then show ?thesis
      by (simp add: candidates_stop)
  qed
qed

lemma candidates_increasing: "increasing_within s e (candidates g s e)"
  unfolding increasing_within_def
  using candidates_sorted [of g s e] by (auto dest: candidates_bounds)

lemma slot_loop_subset: "set (slot_loop g l appts s e) \<subseteq> set (candidates g s e)"
  by (simp add: slot_loop_filter)

lemma slot_loop_increasing: "increasing_within s e (slot_loop g l appts s e)"
proof -
  have "sorted_wrt (\<lambda>x y. fst x < fst y \<and> snd x \<le> fst y) (slot_loop g l appts s e)"
    unfolding slot_loop_filter by (rule sorted_wrt_filter) (rule candidates_sorted)
  moreover have "\<forall>x\<in>set (slot_loop g l appts s e). s \<le> fst x \<and> fst x < snd x \<and> snd x \<le> e"
  proof
    fix x assume "x \<in> set (slot_loop g l appts s e)"
    with slot_loop_subset [of g l appts s e] have "(fst x, snd x) \<in> set (candidates g s e)"
      by auto
    from candidates_bounds [OF this] show "s \<le> fst x \<and> fst x < snd x \<and> snd x \<le> e"
      by simp
  qed
  ultimately show ?thesis
    by (simp add: increasing_within_def)
qed

text \<open>Every point of the window lies in a candidate, and in one only.\<close>

lemma candidates_cover:
  "0 < g \<Longrightarrow> s \<le> t \<Longrightarrow> t < e \<Longrightarrow> \<exists>c\<in>set (candidates g s e). fst c \<le> t \<and> t < snd c"
proof (induction g s e rule: candidates.induct)
  case (1 g s e)
  let ?se = "if s + g > e then e else s + g"
  from "1.prems" have True: "s < e \<and> 0 < g" by simp
  note eq = candidates_step [OF True]
  show ?case
  proof (cases "t < ?se")
    case True
    with "1.prems" show ?thesis unfolding eq by simp
  next
    case False
    then have "?se \<le> t" by simp
    from "1.IH" [OF True refl "1.prems"(1) this "1.prems"(3)] show ?thesis
      unfolding eq by simp
  qed
qed

lemma sorted_cover_unique:
  "sorted_wrt (\<lambda>x y. fst x < fst y \<and> snd x \<le> fst y) xs \<Longrightarrow>
   x \<in> set xs \<Longrightarrow> y \<in> set xs \<Longrightarrow> fst x \<le> t \<Longrightarrow> t < snd x \<Longrightarrow>
   fst y \<le> t \<Longrightarrow> t < snd y \<Longrightarrow> x = (y :: nat \<times> nat)"
proof (induction xs)
  case Nil
  then show ?case by simp
next
  case (Cons z zs)
  then show ?case by fastforce
qed

text \<open>A candidate that ends at the end of the window is the last one.\<close>

lemma candidates_last:
  "(a, b) \<in> set (candidates g s e) \<Longrightarrow> b = e \<Longrightarrow> last (candidates g s e) = (a, b)"
proof (induction g s e rule: candidates.induct)
  case (1 g s e)
  show ?case
  proof (cases "s < e \<and> 0 < g")
    case True
    let ?se = "if s + g > e then e else s + g"
    note eq = candidates_step [OF True]
    from "1.prems"(1) have "(a, b) = (s, ?se) \<or> (a, b) \<in> set (candidates g ?se e)"
      unfolding eq by simp
    then show ?thesis
    proof
      assume first: "(a, b) = (s, ?se)"
      with "1.prems"(2) have "?se = e" by simp
      then have "candidates g ?se e = []" by (simp add: candidates_stop)
      with first show ?thesis unfolding eq by simp
    next
      assume rest: "(a, b) \<in> set (candidates g ?se e)"
      then have "candidates g ?se e \<noteq> []" by auto
      with "1.IH" [OF True refl rest "1.prems"(2)] show ?thesis
        unfolding eq by simp
    qed
  next
    case False
    with "1.prems" show ?thesis
      by (simp add: candidates_stop)
  qed
qed

subsection \<open>Two evaluations\<close>

lemma candidates_emergency:
  "candidates 15 0 (23 * 60 + 59) = map (\<lambda>k. (15 * k, min (15 * k + 15) 1439)) [0..<96]"
  by (simp add: candidates_step candidates_stop upt_rec)

lemma candidates_example:
  "candidates 30 480 600 = [(480, 510), (510, 540), (540, 570), (570, 600)]"
  by (simp add: candidates_step candidates_stop)


subsection \<open>The loop on a date and the loop over minutes\<close>

lemma plus_timedelta_Some: "plus_timedelta date t m = Some x \<Longrightarrow> x = t + m"
  by (simp add: plus_timedelta_def split: if_splits)

lemma run_loop_stop: "\<not> (s < e \<and> 0 < g) \<Longrightarrow> run_loop date g l appts s e = Some []"
  by (subst run_loop.simps) auto

lemma run_loop_raise:
  "s < e \<and> 0 < g \<Longrightarrow> plus_timedelta date s g = None \<Longrightarrow> run_loop date g l appts s e = None"
  by (subst run_loop.simps) simp

lemma run_loop_step:
  "s < e \<and> 0 < g \<Longrightarrow> plus_timedelta date s g = Some added \<Longrightarrow>
   run_loop date g l appts s e =
     (case run_loop date g l appts (if s + g > e then e else s + g) e of
        None \<Rightarrow> None
      | Some rest \<Rightarrow>
          Some ((if overlaps_leave l s (if s + g > e then e else s + g) then []
                 else if is_available s (if s + g > e then e else s + g) appts
                   then [(s, if s + g > e then e else s + g)] else [])
                @ rest))"
  by (subst run_loop.simps) (auto simp: Let_def dest: plus_timedelta_Some)

lemma raises_stop: "\<not> (s < e \<and> 0 < g) \<Longrightarrow> \<not> raises date g s e"
  by (simp add: raises_def candidates_stop)

lemma raises_step:
  "s < e \<and> 0 < g \<Longrightarrow>
   raises date g s e \<longleftrightarrow>
     plus_timedelta date s g = None \<or> raises date g (if s + g > e then e else s + g) e"
  unfolding raises_def candidates_step by simp

text \<open>
  The loop on a date raises when one of its additions does, and returns what the loop
  over minutes returns when none does.
\<close>

lemma run_loop_eq:
  "run_loop date g l appts s e =
     (if raises date g s e then None else Some (slot_loop g l appts s e))"
proof (induction g s e rule: candidates.induct)
  case (1 g s e)
  show ?case
  proof (cases "s < e \<and> 0 < g")
    case True
    show ?thesis
    proof (cases "plus_timedelta date s g")
      case None
      with True show ?thesis
        by (simp add: run_loop_raise raises_step)
    next
      case (Some added)
      show ?thesis
        unfolding run_loop_step [OF True Some] raises_step [OF True] slot_loop_step [OF True]
        using "1.IH" [OF True refl] Some by simp
    qed
  next
    case False
    then show ?thesis
      by (simp add: run_loop_stop raises_stop slot_loop_stop)
  qed
qed

lemma run_loop_Some: "run_loop date g l appts s e = Some xs \<Longrightarrow> xs = slot_loop g l appts s e"
  by (simp add: run_loop_eq split: if_splits)

text \<open>Before the last day no loop over times of day raises.\<close>

lemma no_raise_before_last_day:
  assumes "date < date_max" "e \<le> 1440" "g \<le> 1440"
  shows "\<not> raises date g s e"
proof
  assume "raises date g s e"
  then obtain c where c: "c \<in> set (candidates g s e)" "plus_timedelta date (fst c) g = None"
    by (auto simp: raises_def)
  from c(1) have "(fst c, snd c) \<in> set (candidates g s e)" by simp
  from candidates_bounds [OF this] assms(2) have "fst c < 1440" by simp
  with assms(3) have "(fst c + g) div 1440 \<le> 1" by simp
  with assms(1) c(2) show False
    by (simp add: plus_timedelta_def split: if_splits)
qed

text \<open>The loops of the standard hours never raise, on any date.\<close>

lemma no_raise_standard:
  assumes "date \<le> date_max"
  shows "\<not> raises date 30 (8 * 60) (22 * 60)"
proof
  assume "raises date 30 (8 * 60) (22 * 60)"
  then obtain c where c: "c \<in> set (candidates 30 (8 * 60) (22 * 60))"
    "plus_timedelta date (fst c) 30 = None"
    by (auto simp: raises_def)
  from c(1) have "(fst c, snd c) \<in> set (candidates 30 (8 * 60) (22 * 60))" by simp
  from candidates_bounds [OF this] have "fst c + 30 < 1440" by simp
  then have "(fst c + 30) div 1440 = 0" by simp
  with assms c(2) show False
    by (simp add: plus_timedelta_def split: if_splits)
qed

text \<open>The emergency loop raises on the last day, at the candidate that starts at 23:45.\<close>

lemma raises_emergency_last_day: "raises date_max 15 0 (23 * 60 + 59)"
proof -
  have "(1425, 1439) \<in> set (candidates 15 0 (23 * 60 + 59))"
    unfolding candidates_emergency set_map set_upt
    by (rule image_eqI [where x = 95]) simp_all
  moreover have "plus_timedelta date_max (fst (1425 :: nat, 1439 :: nat)) 15 = None"
    by (simp add: plus_timedelta_def)
  ultimately show ?thesis
    unfolding raises_def by blast
qed

subsection \<open>The branches of the view\<close>

lemma slot_loop_all_excluded:
  assumes "\<forall>c\<in>set (candidates g s e).
             \<exists>appt\<in>set appts. fst c < end_time appt \<and> snd c > start_time appt"
  shows "slot_loop g l appts s e = []"
  unfolding slot_loop_filter filter_empty_conv
  using assms by (auto simp: is_available_iff)

lemma whole_day_excludes_all:
  "\<forall>c\<in>set (candidates 15 0 (23 * 60 + 59)).
     \<exists>appt\<in>set [\<lparr>start_time = 0, end_time = 1439\<rparr>].
        fst c < end_time appt \<and> snd c > start_time appt"
proof
  fix c assume "c \<in> set (candidates 15 0 (23 * 60 + 59))"
  then have "(fst c, snd c) \<in> set (candidates 15 0 (23 * 60 + 59))" by simp
  from candidates_bounds [OF this] show "\<exists>appt\<in>set [\<lparr>start_time = 0, end_time = 1439\<rparr>].
        fst c < end_time appt \<and> snd c > start_time appt"
    by simp
qed


lemma get_available_slots_emergency:
  assumes "accepted r" "is_emergency r" "date_parsed r = Some date"
  shows "get_available_slots r =
     (case emergency_slots r date of
        None \<Rightarrow> Inl Error_processing
      | Some available_slots \<Rightarrow>
          Inr \<lparr>slots = map (slot_dict '' (Emergency)'') available_slots,
               message = Some ''Emergency appointments are available 24/7'',
               warning = None\<rparr>)"
  using assms by (simp add: get_available_slots_def accepted_def)

lemma get_available_slots_leave:
  assumes "accepted r" "\<not> is_emergency r" "date_parsed r = Some date"
    "approved_leaves r = doctor_leave # others"
  shows "get_available_slots r =
     (case leave_slots r date doctor_leave of
        None \<Rightarrow> Inl Error_processing
      | Some available_slots \<Rightarrow>
          Inr \<lparr>slots = map (slot_dict []) available_slots,
               message = None,
               warning = Some ''Doctor is on partial leave for this day. Some time slots may not be available.''\<rparr>)"
  using assms by (simp add: get_available_slots_def accepted_def first_def)

lemma get_available_slots_availability:
  assumes "accepted r" "\<not> is_emergency r" "date_parsed r = Some date"
    "approved_leaves r = []" "doctor_has_slots r \<and> day_slots r \<noteq> []"
  shows "get_available_slots r =
     (case availability_slots r date of
        None \<Rightarrow> Inl Error_processing
      | Some available_slots \<Rightarrow>
          Inr \<lparr>slots = map (slot_dict []) available_slots,
               message = None, warning = None\<rparr>)"
  using assms by (simp add: get_available_slots_def accepted_def first_def)

lemma get_available_slots_standard:
  assumes "accepted r" "\<not> is_emergency r" "date_parsed r = Some date"
    "approved_leaves r = []" "\<not> (doctor_has_slots r \<and> day_slots r \<noteq> [])"
  shows "get_available_slots r =
     (case standard_slots r date of
        None \<Rightarrow> Inl Error_processing
      | Some available_slots \<Rightarrow>
          Inr \<lparr>slots = map (slot_dict []) available_slots,
               message = (if available_slots = [] then
                  Some ''No time slots available for the selected date and doctor.''
                  else None),
               warning = None\<rparr>)"
  using assms by (auto simp: get_available_slots_def accepted_def first_def)

lemma emergency_fallback_value:
  assumes "date < date_max" "now_hour n < 24" "now_minute n < 60"
  shows "emergency_fallback date n =
     Some (now_hour n * 60 + now_minute n div 15 * 15,
           (now_hour n * 60 + now_minute n div 15 * 15 + 15) mod 1440)"
proof -
  have "now_minute n div 15 * 15 \<le> now_minute n" by simp
  with assms(2,3) have "now_hour n * 60 + now_minute n div 15 * 15 + 15 < 2880" by simp
  then have "(now_hour n * 60 + now_minute n div 15 * 15 + 15) div 1440 \<le> 1" by simp
  with assms(1) show ?thesis
    by (simp add: emergency_fallback_def plus_timedelta_def Let_def)
qed

lemma emergency_slots_before_last_day:
  assumes "date < date_max"
  shows "emergency_slots r date =
     (if slot_loop 15 None (existing_appointments r) 0 (23 * 60 + 59) = [] then
        (if date = now_date (now r) then
           (case emergency_fallback date (now r) of
              None \<Rightarrow> None
            | Some emergency_slot \<Rightarrow> Some [emergency_slot])
         else Some [])
      else Some (slot_loop 15 None (existing_appointments r) 0 (23 * 60 + 59)))"
proof -
  have "\<not> raises date 15 0 (23 * 60 + 59)"
    using assms by (intro no_raise_before_last_day) simp_all
  then show ?thesis
    by (simp add: emergency_slots_def run_loop_eq)
qed

lemma emergency_slots_last_day: "emergency_slots r date_max = None"
  using raises_emergency_last_day by (simp add: emergency_slots_def run_loop_eq)

lemma leave_slots_eq:
  "date \<le> date_max \<Longrightarrow>
   leave_slots r date doctor_leave =
     Some (slot_loop 30 (Some doctor_leave) (existing_appointments r) (8 * 60) (22 * 60))"
  using no_raise_standard [of date] by (simp add: leave_slots_def run_loop_eq)

lemma standard_slots_eq:
  "date \<le> date_max \<Longrightarrow>
   standard_slots r date = Some (slot_loop 30 None (existing_appointments r) (8 * 60) (22 * 60))"
  using no_raise_standard [of date] by (simp add: standard_slots_def run_loop_eq)

lemma availability_loops_eq:
  assumes "date < date_max" "list_all (\<lambda>row. end_time row < 1440) rows"
  shows "availability_loops date appts rows =
     Some (concat (map (\<lambda>slot. slot_loop 30 None appts (start_time slot) (end_time slot)) rows))"
  using assms(2)
proof (induction rows)
  case Nil
  then show ?case by simp
next
  case (Cons row rows)
  then have "\<not> raises date 30 (start_time row) (end_time row)"
    using assms(1) by (intro no_raise_before_last_day) simp_all
  with Cons show ?case
    by (simp add: run_loop_eq)
qed

lemma availability_loops_Some:
  "availability_loops date appts rows = Some xs \<Longrightarrow>
   xs = concat (map (\<lambda>slot. slot_loop 30 None appts (start_time slot) (end_time slot)) rows)"
proof (induction rows arbitrary: xs)
  case Nil
  then show ?case by simp
next
  case (Cons row rows)
  then show ?case
    by (auto simp: run_loop_eq split: option.splits if_splits)
qed

lemma candidates_standard:
  "candidates 30 (8 * 60) (22 * 60) = map (\<lambda>k. (480 + 30 * k, 510 + 30 * k)) [0..<28]"
  by (simp add: candidates_step candidates_stop upt_rec)


subsection \<open>Labels\<close>





subsection \<open>The example requests\<close>

lemma accepted_examples:
  "accepted plain_request" "accepted emergency_request" "accepted booked_today"
  "accepted booked_tomorrow" "accepted booked_today_later" "accepted booked_today_late"
  "accepted booked_last_day" "accepted short_appointment_request"
  "accepted short_appointment_later" "accepted two_leaves_request"
  by (simp_all add: accepted_def missing_def plain_request_def emergency_request_def
      booked_today_def booked_tomorrow_def booked_today_later_def booked_today_late_def
      booked_last_day_def short_appointment_request_def short_appointment_later_def
      two_leaves_request_def)

lemma candidates_after_ten:
  "candidates 30 600 (22 * 60) = map (\<lambda>k. (600 + 30 * k, 630 + 30 * k)) [0..<24]"
  by (simp add: candidates_step candidates_stop upt_rec)

lemma candidates_after_half_past_eight:
  "candidates 30 510 (22 * 60) = map (\<lambda>k. (510 + 30 * k, 540 + 30 * k)) [0..<27]"
  by (simp add: candidates_step candidates_stop upt_rec)

subsection \<open>What the loops and the branches keep\<close>

text \<open>
  The test of the loop is strict overlap: a candidate is dropped if and only if it
  strictly overlaps an appointment or the leave that the loop is given, and a row that
  abuts the candidate never excludes it.
\<close>

lemma excluded_iff_strict_overlap:
  assumes "c \<in> set (candidates g s e)"
  shows "(c \<notin> set (slot_loop g doctor_leave appts s e) \<longleftrightarrow>
            (\<exists>appt\<in>set appts. fst c < end_time appt \<and> snd c > start_time appt) \<or>
            (\<exists>leave. doctor_leave = Some leave \<and>
               fst c < end_time leave \<and> snd c > start_time leave)) \<and>
         (start_time row = snd c \<or> end_time row = fst c \<longrightarrow>
            c \<in> set (slot_loop g None [row] s e) \<and>
            c \<in> set (slot_loop g (Some row) [] s e))"
proof -
  obtain a b where c: "c = (a, b)" by (cases c)
  have kept: "c \<in> set (slot_loop g l rows s e) \<longleftrightarrow>
      \<not> overlaps_leave l a b \<and> is_available a b rows" for l rows
    using assms by (simp add: slot_loop_filter c)
  have leave: "overlaps_leave doctor_leave a b \<longleftrightarrow>
      (\<exists>leave. doctor_leave = Some leave \<and> a < end_time leave \<and> b > start_time leave)"
    by (cases doctor_leave) (simp_all add: overlaps_leave_def)
  have first: "c \<notin> set (slot_loop g doctor_leave appts s e) \<longleftrightarrow>
      (\<exists>appt\<in>set appts. fst c < end_time appt \<and> snd c > start_time appt) \<or>
      (\<exists>leave. doctor_leave = Some leave \<and>
         fst c < end_time leave \<and> snd c > start_time leave)"
    unfolding kept is_available_iff leave by (auto simp: c)
  have second: "c \<in> set (slot_loop g None [row] s e) \<and>
      c \<in> set (slot_loop g (Some row) [] s e)"
    if "start_time row = snd c \<or> end_time row = fst c"
    unfolding kept using that by (auto simp: c overlaps_leave_def)
  from first second show ?thesis by blast
qed

text \<open>An emergency lookup does not read the leaves.\<close>

lemma emergency_ignores_leaves:
  "is_emergency r \<Longrightarrow>
   get_available_slots (r\<lparr>approved_leaves := leaves\<rparr>) = get_available_slots r"
proof -
  assume em: "is_emergency r"
  have "emergency_slots (r\<lparr>approved_leaves := leaves\<rparr>) date = emergency_slots r date"
    for date
    by (simp add: emergency_slots_def cong: if_cong option.case_cong)
  with em show ?thesis
    by (cases "date_parsed r") (simp_all add: get_available_slots_def)
qed

text \<open>
  Before the last day, an emergency lookup for today's date is never empty, and one for
  another date returns what the loop has kept.
\<close>

lemma emergency_today_not_empty:
  assumes "accepted r" "is_emergency r" "date_parsed r = Some (now_date (now r))"
    and "now_date (now r) < date_max" "now_hour (now r) < 24" "now_minute (now r) < 60"
  shows "\<exists>resp. get_available_slots r = Inr resp \<and> slots resp \<noteq> []"
  unfolding get_available_slots_emergency [OF assms(1-3)]
    emergency_slots_before_last_day [OF assms(4)]
    emergency_fallback_value [OF assms(4-6)]
  by simp

lemma no_fallback_on_other_dates:
  assumes "accepted r" "is_emergency r" "date_parsed r = Some date"
    and "date \<noteq> now_date (now r)" "date < date_max"
  shows "get_available_slots r =
     Inr \<lparr>slots = map (slot_dict '' (Emergency)'')
             (slot_loop 15 None (existing_appointments r) 0 (23 * 60 + 59)),
          message = Some ''Emergency appointments are available 24/7'',
          warning = None\<rparr>"
  unfolding get_available_slots_emergency [OF assms(1-3)]
    emergency_slots_before_last_day [OF assms(5)]
  using assms(4) by simp

text \<open>What a loop returns is in order, apart and within its window.\<close>

lemma run_loop_increasing:
  "run_loop date g l appts s e = Some xs \<Longrightarrow> increasing_within s e xs"
  using slot_loop_increasing [of s e g l appts] by (simp add: run_loop_eq split: if_splits)

section \<open>The claims\<close>

subsection \<open>C1: an emergency lookup is never empty\<close>

text \<open>
  Claim C1. For every call with the emergency flag the returned slot sequence is not
  empty: if every candidate is excluded by a booked interval, one fallback slot is
  added, at the current time rounded down to the quarter of an hour. The view does not
  keep this. Its comment says \<^verbatim>\<open>Always return at least one slot for emergency cases\<close>,
  but the fallback is added under \<^verbatim>\<open>if date == now.date()\<close> only: the emergency
  request of 2025-03-10 for 2025-03-11, with the doctor booked from 00:00 to 23:59, is
  answered with no slot at all.
\<close>

theorem emergency_other_date_empty:
  "is_emergency booked_tomorrow \<and>
   existing_appointments booked_tomorrow = [\<lparr>start_time = 0, end_time = 1439\<rparr>] \<and>
   date_parsed booked_tomorrow = Some 739321 \<and>
   now_date (now booked_tomorrow) = 739320 \<and>
   get_available_slots booked_tomorrow =
     Inr \<lparr>slots = [], message = Some ''Emergency appointments are available 24/7'',
          warning = None\<rparr>"
proof -
  have e: "existing_appointments booked_tomorrow = [\<lparr>start_time = 0, end_time = 1439\<rparr>]"
    and i: "is_emergency booked_tomorrow"
    and d: "date_parsed booked_tomorrow = Some 739321"
    and n: "now_date (now booked_tomorrow) = 739320"
    by (simp_all add: booked_tomorrow_def booked_today_def plain_request_def)
  have "slot_loop 15 None (existing_appointments booked_tomorrow) 0 (23 * 60 + 59) = []"
    unfolding e by (rule slot_loop_all_excluded [OF whole_day_excludes_all])
  then have "emergency_slots booked_tomorrow 739321 = Some []"
    by (simp add: emergency_slots_before_last_day date_max_def n)
  then show ?thesis
    unfolding get_available_slots_emergency [OF accepted_examples(4) i d]
    using e i d n by simp
qed

subsection \<open>C2: which points of the window are covered\<close>

text \<open>
  Claim C2, as amended. For every window, step, list of appointments and leave given to
  the loop, and every date on which the loop does not raise (it never does before
  9999-12-31), every time point of the window lies in exactly one candidate. When that
  candidate strictly overlaps no appointment and not the leave, the point is covered by
  exactly one returned slot, the candidate; when the candidate overlaps one of them, the
  point is covered by no returned slot, also when the point itself is free. The claim as
  stated fails on such a point (the counterexample below): with one appointment from
  08:10 to 08:20, the free point 08:00 is in no slot, because the candidate 08:00 to
  08:30 is dropped as a whole.
\<close>

theorem free_candidate_covered_once:
  assumes "0 < g" "s \<le> t" "t < e"
  shows "(date < date_max \<and> e \<le> 1440 \<and> g \<le> 1440 \<longrightarrow>
            run_loop date g doctor_leave appts s e \<noteq> None) \<and>
         (\<forall>xs. run_loop date g doctor_leave appts s e = Some xs \<longrightarrow>
            (\<exists>c\<in>set (candidates g s e). fst c \<le> t \<and> t < snd c \<and>
               (\<forall>c'\<in>set (candidates g s e). fst c' \<le> t \<and> t < snd c' \<longrightarrow> c' = c) \<and>
               (if (\<exists>appt\<in>set appts. fst c < end_time appt \<and> snd c > start_time appt) \<or>
                   overlaps_leave doctor_leave (fst c) (snd c)
                then \<not> covered t xs
                else c \<in> set xs \<and> (\<forall>x\<in>set xs. fst x \<le> t \<and> t < snd x \<longrightarrow> x = c))))"
proof (intro conjI impI allI)
  assume "date < date_max \<and> e \<le> 1440 \<and> g \<le> 1440"
  then have "\<not> raises date g s e"
    by (intro no_raise_before_last_day) simp_all
  then show "run_loop date g doctor_leave appts s e \<noteq> None"
    by (simp add: run_loop_eq)
next
  fix xs assume "run_loop date g doctor_leave appts s e = Some xs"
  then have xs: "xs = slot_loop g doctor_leave appts s e"
    by (rule run_loop_Some)
  from candidates_cover [OF assms] obtain c
    where c: "c \<in> set (candidates g s e)" "fst c \<le> t" "t < snd c" by blast
  have only: "c' = c" if "c' \<in> set (candidates g s e)" "fst c' \<le> t" "t < snd c'" for c'
    using sorted_cover_unique [OF candidates_sorted that(1) c(1) that(2,3) c(2,3)] .
  have sub: "x \<in> set (candidates g s e)" if "x \<in> set xs" for x
    using that slot_loop_subset [of g doctor_leave appts s e] unfolding xs by blast
  have kept: "c \<in> set xs \<longleftrightarrow>
      \<not> overlaps_leave doctor_leave (fst c) (snd c) \<and>
      \<not> (\<exists>appt\<in>set appts. fst c < end_time appt \<and> snd c > start_time appt)"
  proof -
    obtain a b where "c = (a, b)" by (cases c)
    with c(1) show ?thesis
      unfolding xs slot_loop_filter by (simp add: is_available_iff)
  qed
  have "if (\<exists>appt\<in>set appts. fst c < end_time appt \<and> snd c > start_time appt) \<or>
           overlaps_leave doctor_leave (fst c) (snd c)
        then \<not> covered t xs
        else c \<in> set xs \<and> (\<forall>x\<in>set xs. fst x \<le> t \<and> t < snd x \<longrightarrow> x = c)"
  proof (cases "c \<in> set xs")
    case True
    with kept only sub show ?thesis by auto
  next
    case False
    have "\<not> covered t xs"
    proof
      assume "covered t xs"
      then obtain x where x: "x \<in> set xs" "fst x \<le> t" "t < snd x"
        by (auto simp: covered_def)
      from only [OF sub [OF x(1)] x(2,3)] x(1) False show False by simp
    qed
    with False kept show ?thesis by auto
  qed
  with c only show "\<exists>c\<in>set (candidates g s e). fst c \<le> t \<and> t < snd c \<and>
      (\<forall>c'\<in>set (candidates g s e). fst c' \<le> t \<and> t < snd c' \<longrightarrow> c' = c) \<and>
      (if (\<exists>appt\<in>set appts. fst c < end_time appt \<and> snd c > start_time appt) \<or>
          overlaps_leave doctor_leave (fst c) (snd c)
       then \<not> covered t xs
       else c \<in> set xs \<and> (\<forall>x\<in>set xs. fst x \<le> t \<and> t < snd x \<longrightarrow> x = c))"
    by blast
qed

theorem free_candidate_covered_once_witness:
  "\<exists>xs. run_loop 739320 30 None [\<lparr>start_time = 490, end_time = 500\<rparr>] 480 600 = Some xs \<and>
     (510, 540) \<in> set xs \<and> \<not> covered 485 xs"
proof -
  let ?appts = "[\<lparr>start_time = 490, end_time = 500\<rparr>]"
  have "run_loop 739320 30 None ?appts 480 600 \<noteq> None"
    using free_candidate_covered_once [of 30 480 520 600 739320 None ?appts]
    by (simp add: date_max_def)
  then obtain xs where xs: "run_loop 739320 30 None ?appts 480 600 = Some xs"
    by blast
  from free_candidate_covered_once [of 30 480 520 600 739320 None ?appts] xs
  obtain c where c: "c \<in> set (candidates 30 480 600)" "fst c \<le> 520" "520 < snd c"
    "if (\<exists>appt\<in>set ?appts. fst c < end_time appt \<and> snd c > start_time appt) \<or>
        overlaps_leave None (fst c) (snd c)
     then \<not> covered 520 xs
     else c \<in> set xs \<and> (\<forall>x\<in>set xs. fst x \<le> 520 \<and> 520 < snd x \<longrightarrow> x = c)"
    by auto
  from c(1-3) have "c = (510, 540)"
    unfolding candidates_example by auto
  with c(4) have one: "(510, 540) \<in> set xs"
    by (simp add: overlaps_leave_def)
  from free_candidate_covered_once [of 30 480 485 600 739320 None ?appts] xs
  obtain c' where c': "c' \<in> set (candidates 30 480 600)" "fst c' \<le> 485" "485 < snd c'"
    "if (\<exists>appt\<in>set ?appts. fst c' < end_time appt \<and> snd c' > start_time appt) \<or>
        overlaps_leave None (fst c') (snd c')
     then \<not> covered 485 xs
     else c' \<in> set xs \<and> (\<forall>x\<in>set xs. fst x \<le> 485 \<and> 485 < snd x \<longrightarrow> x = c')"
    by auto
  from c'(1-3) have "c' = (480, 510)"
    unfolding candidates_example by auto
  with c'(4) have "\<not> covered 485 xs"
    by simp
  with xs one show ?thesis by blast
qed

theorem free_point_uncovered_counterexample:
  "existing_appointments short_appointment_request = [\<lparr>start_time = 490, end_time = 500\<rparr>] \<and>
   get_available_slots short_appointment_request =
     Inr \<lparr>slots = map (slot_dict []) (candidates 30 510 (22 * 60)),
          message = None, warning = None\<rparr> \<and>
   \<not> booked_at 480 (existing_appointments short_appointment_request) \<and>
   \<not> covered 480 (candidates 30 510 (22 * 60))"
proof -
  let ?appts = "[\<lparr>start_time = 490, end_time = 500\<rparr>]"
  have f: "existing_appointments short_appointment_request = ?appts"
    "\<not> is_emergency short_appointment_request"
    "date_parsed short_appointment_request = Some 739320"
    "approved_leaves short_appointment_request = []"
    "\<not> (doctor_has_slots short_appointment_request \<and>
        day_slots short_appointment_request \<noteq> [])"
    by (simp_all add: short_appointment_request_def plain_request_def)
  have "filter (\<lambda>(a, b). \<not> overlaps_leave None a b \<and> is_available a b ?appts)
          (candidates 30 510 (22 * 60)) = candidates 30 510 (22 * 60)"
    unfolding filter_id_conv
    by (auto simp: overlaps_leave_def dest!: candidates_bounds)
  then have rest: "slot_loop 30 None ?appts 510 (22 * 60) = candidates 30 510 (22 * 60)"
    by (simp add: slot_loop_filter)
  have "slot_loop 30 None ?appts (8 * 60) (22 * 60) = slot_loop 30 None ?appts 510 (22 * 60)"
    by (subst slot_loop_step) (simp_all add: overlaps_leave_def)
  with rest have std: "standard_slots short_appointment_request 739320 =
      Some (candidates 30 510 (22 * 60))"
    by (simp add: standard_slots_eq f(1) date_max_def)
  have ne: "candidates 30 510 (22 * 60) \<noteq> []"
    unfolding candidates_after_half_past_eight by (simp add: upt_rec [of 0])
  have "\<not> covered 480 (candidates 30 510 (22 * 60))"
    by (auto simp: covered_def dest!: candidates_bounds)
  moreover have "\<not> booked_at 480 ?appts"
    by (simp add: booked_at_def)
  ultimately show ?thesis
    unfolding get_available_slots_standard [OF accepted_examples(8) f(2-5)] std
    using f(1) ne by simp
qed

subsection \<open>C3: exclusion is strict overlap\<close>

text \<open>
  Claim C3. A candidate is excluded by a booked interval, or outside an emergency by a
  blackout interval, if and only if the two strictly overlap; an interval that abuts
  the candidate never excludes it. The test that the view applies is this one (lemma
  \<open>excluded_iff_strict_overlap\<close>), but the view applies it to one leave only, the
  \<^verbatim>\<open>.first()\<close> of the approved leaves of the date, where \<^verbatim>\<open>Appointment.clean\<close> tests them
  all. With two approved leaves, 08:00 to 10:00 and 14:00 to 16:00, the candidate
  14:00 to 14:30 strictly overlaps the second leave and is not excluded.
\<close>

theorem second_leave_overlap_kept:
  "\<not> is_emergency two_leaves_request \<and>
   approved_leaves two_leaves_request =
     [\<lparr>start_time = 480, end_time = 600\<rparr>, \<lparr>start_time = 840, end_time = 960\<rparr>] \<and>
   first (approved_leaves two_leaves_request) = Some \<lparr>start_time = 480, end_time = 600\<rparr> \<and>
   overlaps_leave (Some \<lparr>start_time = 840, end_time = 960\<rparr>) 840 870 \<and>
   leave_slots two_leaves_request 739320 \<lparr>start_time = 480, end_time = 600\<rparr> =
     Some (candidates 30 600 (22 * 60)) \<and>
   (840, 870) \<in> set (candidates 30 600 (22 * 60))"
proof -
  have f: "\<not> is_emergency two_leaves_request"
    "approved_leaves two_leaves_request =
       [\<lparr>start_time = 480, end_time = 600\<rparr>, \<lparr>start_time = 840, end_time = 960\<rparr>]"
    "existing_appointments two_leaves_request = []"
    by (simp_all add: two_leaves_request_def plain_request_def)
  have "slot_loop 30 (Some \<lparr>start_time = 480, end_time = 600\<rparr>) [] (8 * 60) (22 * 60) =
      candidates 30 600 (22 * 60)"
    unfolding slot_loop_filter candidates_standard candidates_after_ten
    by (simp add: overlaps_leave_def upt_rec)
  then have "leave_slots two_leaves_request 739320 \<lparr>start_time = 480, end_time = 600\<rparr> =
      Some (candidates 30 600 (22 * 60))"
    by (simp add: leave_slots_eq f(3) date_max_def)
  moreover have "(840, 870) \<in> set (candidates 30 600 (22 * 60))"
    unfolding candidates_after_ten set_map set_upt
    by (rule image_eqI [where x = 8]) simp_all
  ultimately show ?thesis
    using f by (simp add: first_def overlaps_leave_def)
qed

subsection \<open>C4: leaves outside and inside an emergency\<close>

text \<open>
  Claim C4. In an emergency the blackout intervals are ignored and the booked intervals
  still exclude candidates; outside an emergency a candidate that overlaps any blackout
  interval is excluded. The first half holds (lemma \<open>emergency_ignores_leaves\<close>; the
  emergency loop runs the same test over the appointments). The second half does not:
  the view reads one approved leave, the \<^verbatim>\<open>.first()\<close> of the queryset, where
  \<^verbatim>\<open>Appointment.clean\<close> reads them all. For the doctor on leave from 08:00 to 10:00 and
  from 14:00 to 16:00, the answer offers every slot from 10:00 to 22:00, among them
  14:00 to 14:30.
\<close>

theorem second_leave_slot_offered:
  "get_available_slots two_leaves_request =
     Inr \<lparr>slots = map (slot_dict []) (candidates 30 600 (22 * 60)),
          message = None,
          warning = Some ''Doctor is on partial leave for this day. Some time slots may not be available.''\<rparr> \<and>
   (840, 870) \<in> set (candidates 30 600 (22 * 60)) \<and>
   slot_dict [] (840, 870) =
     \<lparr>start = ''14:00'', end' = ''14:30'', display = ''14:00 - 14:30''\<rparr>"
proof -
  have f: "\<not> is_emergency two_leaves_request"
    "date_parsed two_leaves_request = Some 739320"
    "approved_leaves two_leaves_request =
       \<lparr>start_time = 480, end_time = 600\<rparr> # [\<lparr>start_time = 840, end_time = 960\<rparr>]"
    "existing_appointments two_leaves_request = []"
    by (simp_all add: two_leaves_request_def plain_request_def)
  have "slot_loop 30 (Some \<lparr>start_time = 480, end_time = 600\<rparr>) [] (8 * 60) (22 * 60) =
      candidates 30 600 (22 * 60)"
    unfolding slot_loop_filter candidates_standard candidates_after_ten
    by (simp add: overlaps_leave_def upt_rec)
  then have "leave_slots two_leaves_request 739320 \<lparr>start_time = 480, end_time = 600\<rparr> =
      Some (candidates 30 600 (22 * 60))"
    by (simp add: leave_slots_eq f(4) date_max_def)
  then have "get_available_slots two_leaves_request =
     Inr \<lparr>slots = map (slot_dict []) (candidates 30 600 (22 * 60)),
          message = None,
          warning = Some ''Doctor is on partial leave for this day. Some time slots may not be available.''\<rparr>"
    unfolding get_available_slots_leave [OF accepted_examples(10) f(1-3)] by simp
  moreover have "(840, 870) \<in> set (candidates 30 600 (22 * 60))"
    unfolding candidates_after_ten set_map set_upt
    by (rule image_eqI [where x = 8]) simp_all
  moreover have "slot_dict [] (840, 870) =
     \<lparr>start = ''14:00'', end' = ''14:30'', display = ''14:00 - 14:30''\<rparr>"
    by (simp add: slot_dict_def strftime_HM_def two_digits_def)
  ultimately show ?thesis by simp
qed

subsection \<open>C5: errors\<close>

text \<open>
  Claim C5, as amended. The view checks neither a window, nor a step, nor an interval.
  It answers with an error when the request is not a GET, when a parameter is missing,
  when the doctor is not found or the date does not parse; each of these is decided
  before any slot is generated and there is no partial result. Absence of availability
  is never an error: every request that passes these checks, for a date before
  9999-12-31, is answered with a list of slots, which may be empty. The claim as stated
  fails on a request without \<^verbatim>\<open>doctor_id\<close> (the counterexample below): it is answered
  with an error although no window, step or interval is malformed.
\<close>

theorem errors_come_from_the_request:
  "(\<not> method_GET r \<longrightarrow> get_available_slots r = Inl Invalid_request) \<and>
   (method_GET r \<and> (missing (doctor_id r) \<or> missing (date_str r)) \<longrightarrow>
      get_available_slots r = Inl Missing_parameters) \<and>
   (method_GET r \<and> \<not> missing (doctor_id r) \<and> \<not> missing (date_str r) \<and>
    (\<not> doctor_found r \<or> date_parsed r = None) \<longrightarrow>
      get_available_slots r = Inl Invalid_parameters) \<and>
   (accepted r \<and> well_typed r \<and> date_parsed r \<noteq> Some date_max \<longrightarrow>
      (\<exists>resp. get_available_slots r = Inr resp))"
proof (intro conjI impI)
  assume "\<not> method_GET r"
  then show "get_available_slots r = Inl Invalid_request"
    by (simp add: get_available_slots_def)
next
  assume "method_GET r \<and> (missing (doctor_id r) \<or> missing (date_str r))"
  then show "get_available_slots r = Inl Missing_parameters"
    by (auto simp: get_available_slots_def)
next
  assume "method_GET r \<and> \<not> missing (doctor_id r) \<and> \<not> missing (date_str r) \<and>
    (\<not> doctor_found r \<or> date_parsed r = None)"
  then show "get_available_slots r = Inl Invalid_parameters"
    by (auto simp: get_available_slots_def)
next
  assume a: "accepted r \<and> well_typed r \<and> date_parsed r \<noteq> Some date_max"
  then have acc: "accepted r" by simp
  then obtain date where date: "date_parsed r = Some date"
    by (auto simp: accepted_def)
  with a have before: "date < date_max" and clock: "now_hour (now r) < 24"
    "now_minute (now r) < 60"
    and rows: "list_all (\<lambda>row. end_time row < 1440) (day_slots r)"
    by (auto simp: well_typed_def list_all_iff)
  show "\<exists>resp. get_available_slots r = Inr resp"
  proof (cases "is_emergency r")
    case True
    show ?thesis
      unfolding get_available_slots_emergency [OF acc True date]
        emergency_slots_before_last_day [OF before]
        emergency_fallback_value [OF before clock]
      by simp
  next
    case False
    show ?thesis
    proof (cases "approved_leaves r")
      case (Cons doctor_leave others)
      show ?thesis
        unfolding get_available_slots_leave [OF acc False date Cons]
        using before by (simp add: leave_slots_eq)
    next
      case Nil
      show ?thesis
      proof (cases "doctor_has_slots r \<and> day_slots r \<noteq> []")
        case True
        show ?thesis
          unfolding get_available_slots_availability [OF acc False date Nil True]
            availability_slots_def availability_loops_eq [OF before rows]
          by simp
      next
        case no_rows: False
        show ?thesis
          unfolding get_available_slots_standard [OF acc False date Nil no_rows]
          using before by (simp add: standard_slots_eq)
      qed
    qed
  qed
qed

theorem errors_come_from_the_request_witness:
  "(\<exists>resp. get_available_slots short_appointment_request = Inr resp) \<and>
   get_available_slots post_request = Inl Invalid_request"
proof -
  have "well_typed short_appointment_request"
    "date_parsed short_appointment_request \<noteq> Some date_max"
    by (simp_all add: well_typed_def short_appointment_request_def plain_request_def
        date_max_def)
  with errors_come_from_the_request [of short_appointment_request] accepted_examples(8)
  have "\<exists>resp. get_available_slots short_appointment_request = Inr resp"
    by blast
  moreover have "\<not> method_GET post_request"
    by (simp add: post_request_def plain_request_def)
  with errors_come_from_the_request [of post_request]
  have "get_available_slots post_request = Inl Invalid_request"
    by blast
  ultimately show ?thesis by simp
qed

theorem missing_parameter_counterexample:
  "existing_appointments no_doctor_request = [] \<and>
   approved_leaves no_doctor_request = [] \<and>
   day_slots no_doctor_request = [] \<and>
   get_available_slots no_doctor_request = Inl Missing_parameters"
  by (simp add: get_available_slots_def missing_def no_doctor_request_def plain_request_def)

subsection \<open>C6: the slots are in order, apart and inside the window\<close>

text \<open>
  Claim C6. For every input the returned slots do not overlap, lie within the window and
  come in increasing order of start; the candidates are increasing and apart too. This
  holds of what the loops return (lemmas \<open>candidates_increasing\<close> and
  \<open>run_loop_increasing\<close>), which cut the last candidate at the end of the window. The
  fallback slot of the emergency branch is not cut: its end is the time of day 15
  minutes after its start. With the doctor booked all day and the clock at 23:50, the
  one slot returned starts at 23:45 and ends at 00:00, outside the window 00:00 to
  23:59 and before its own start.
\<close>

theorem fallback_past_midnight:
  "is_emergency booked_today_late \<and>
   now booked_today_late = \<lparr>now_date = 739320, now_hour = 23, now_minute = 50\<rparr> \<and>
   emergency_slots booked_today_late 739320 = Some [(1425, 0)] \<and>
   get_available_slots booked_today_late =
     Inr \<lparr>slots = [\<lparr>start = ''23:45'', end' = ''00:00'',
                     display = ''23:45 - 00:00 (Emergency)''\<rparr>],
          message = Some ''Emergency appointments are available 24/7'',
          warning = None\<rparr>"
proof -
  have e: "existing_appointments booked_today_late = [\<lparr>start_time = 0, end_time = 1439\<rparr>]"
    and i: "is_emergency booked_today_late"
    and d: "date_parsed booked_today_late = Some 739320"
    and n: "now booked_today_late = \<lparr>now_date = 739320, now_hour = 23, now_minute = 50\<rparr>"
    by (simp_all add: booked_today_late_def booked_today_def plain_request_def)
  have "slot_loop 15 None (existing_appointments booked_today_late) 0 (23 * 60 + 59) = []"
    unfolding e by (rule slot_loop_all_excluded [OF whole_day_excludes_all])
  moreover have "emergency_fallback 739320 (now booked_today_late) = Some (1425, 0)"
    unfolding n by (subst emergency_fallback_value) (simp_all add: date_max_def)
  ultimately have s: "emergency_slots booked_today_late 739320 = Some [(1425, 0)]"
    by (simp add: emergency_slots_before_last_day date_max_def n)
  have "slot_dict '' (Emergency)'' (1425, 0) =
      \<lparr>start = ''23:45'', end' = ''00:00'', display = ''23:45 - 00:00 (Emergency)''\<rparr>"
    by (simp add: slot_dict_def strftime_HM_def two_digits_def)
  then show ?thesis
    unfolding get_available_slots_emergency [OF accepted_examples(6) i d] s
    using i n by simp
qed

subsection \<open>C7: the emergency window and the labels\<close>



subsection \<open>C8: two runs on the same inputs\<close>

text \<open>
  Claim C8, as amended. The current time is not supplied by the caller: the view reads
  the clock itself, with \<^verbatim>\<open>timezone.now()\<close>. Two runs on the same request and the same
  rows return the same response, slot by slot, when the emergency flag is off, when
  the emergency loop keeps a slot, and whenever the two readings of the clock agree on
  the date, the hour and the quarter of the hour. The claim as stated fails on the same
  fully booked emergency request run at 08:10 and at 09:20 (the counterexample below):
  the first run returns the slot 08:00 to 08:15, the second 09:15 to 09:30.
\<close>

theorem clock_matters_only_for_fallback:
  "(\<not> is_emergency r \<longrightarrow> get_available_slots (r\<lparr>now := n\<rparr>) = get_available_slots r) \<and>
   (slot_loop 15 None (existing_appointments r) 0 (23 * 60 + 59) \<noteq> [] \<longrightarrow>
      get_available_slots (r\<lparr>now := n\<rparr>) = get_available_slots r) \<and>
   (now_date n = now_date (now r) \<and> now_hour n = now_hour (now r) \<and>
    now_minute n div 15 = now_minute (now r) div 15 \<longrightarrow>
      get_available_slots (r\<lparr>now := n\<rparr>) = get_available_slots r)"
proof (intro conjI impI)
  have other: "leave_slots (r\<lparr>now := n\<rparr>) = leave_slots r"
    "availability_slots (r\<lparr>now := n\<rparr>) = availability_slots r"
    "standard_slots (r\<lparr>now := n\<rparr>) = standard_slots r"
    by (simp_all add: fun_eq_iff leave_slots_def availability_slots_def standard_slots_def)
  have view: "get_available_slots (r\<lparr>now := n\<rparr>) = get_available_slots r"
    if "is_emergency r \<Longrightarrow> emergency_slots (r\<lparr>now := n\<rparr>) = emergency_slots r"
  proof (cases "is_emergency r")
    case True
    with that show ?thesis
      by (cases "date_parsed r") (simp_all add: get_available_slots_def)
  next
    case False
    then show ?thesis
      by (cases "date_parsed r")
        (simp_all add: get_available_slots_def other cong: if_cong option.case_cong)
  qed
  {
    assume "\<not> is_emergency r"
    then show "get_available_slots (r\<lparr>now := n\<rparr>) = get_available_slots r"
      by (intro view) simp
  }
  {
    assume kept: "slot_loop 15 None (existing_appointments r) 0 (23 * 60 + 59) \<noteq> []"
    have "emergency_slots (r\<lparr>now := n\<rparr>) date = emergency_slots r date" for date
      using kept by (simp add: emergency_slots_def run_loop_eq)
    then show "get_available_slots (r\<lparr>now := n\<rparr>) = get_available_slots r"
      by (intro view) (simp add: fun_eq_iff)
  }
  {
    assume same: "now_date n = now_date (now r) \<and> now_hour n = now_hour (now r) \<and>
      now_minute n div 15 = now_minute (now r) div 15"
    then have "emergency_fallback date n = emergency_fallback date (now r)" for date
      by (simp add: emergency_fallback_def)
    with same have "emergency_slots (r\<lparr>now := n\<rparr>) date = emergency_slots r date" for date
      by (simp add: emergency_slots_def cong: if_cong option.case_cong)
    then show "get_available_slots (r\<lparr>now := n\<rparr>) = get_available_slots r"
      by (intro view) (simp add: fun_eq_iff)
  }
qed

theorem clock_matters_only_for_fallback_witness:
  "short_appointment_later =
     short_appointment_request\<lparr>now := \<lparr>now_date = 739321, now_hour = 17, now_minute = 5\<rparr>\<rparr> \<and>
   get_available_slots short_appointment_later =
     get_available_slots short_appointment_request"
proof -
  have "\<not> is_emergency short_appointment_request"
    by (simp add: short_appointment_request_def plain_request_def)
  with clock_matters_only_for_fallback [of short_appointment_request
      "\<lparr>now_date = 739321, now_hour = 17, now_minute = 5\<rparr>"]
  show ?thesis
    by (simp add: short_appointment_later_def)
qed

theorem clock_counterexample:
  "booked_today_later =
     booked_today\<lparr>now := \<lparr>now_date = 739320, now_hour = 9, now_minute = 20\<rparr>\<rparr> \<and>
   now booked_today = \<lparr>now_date = 739320, now_hour = 8, now_minute = 10\<rparr> \<and>
   get_available_slots booked_today =
     Inr \<lparr>slots = [\<lparr>start = ''08:00'', end' = ''08:15'',
                     display = ''08:00 - 08:15 (Emergency)''\<rparr>],
          message = Some ''Emergency appointments are available 24/7'',
          warning = None\<rparr> \<and>
   get_available_slots booked_today_later =
     Inr \<lparr>slots = [\<lparr>start = ''09:15'', end' = ''09:30'',
                     display = ''09:15 - 09:30 (Emergency)''\<rparr>],
          message = Some ''Emergency appointments are available 24/7'',
          warning = None\<rparr>"
proof -
  have e: "existing_appointments booked_today = [\<lparr>start_time = 0, end_time = 1439\<rparr>]"
    "existing_appointments booked_today_later = [\<lparr>start_time = 0, end_time = 1439\<rparr>]"
    and i: "is_emergency booked_today" "is_emergency booked_today_later"
    and d: "date_parsed booked_today = Some 739320"
    "date_parsed booked_today_later = Some 739320"
    and n: "now booked_today = \<lparr>now_date = 739320, now_hour = 8, now_minute = 10\<rparr>"
    "now booked_today_later = \<lparr>now_date = 739320, now_hour = 9, now_minute = 20\<rparr>"
    by (simp_all add: booked_today_later_def booked_today_def plain_request_def)
  have loop: "slot_loop 15 None [\<lparr>start_time = 0, end_time = 1439\<rparr>] 0 (23 * 60 + 59) = []"
    by (rule slot_loop_all_excluded [OF whole_day_excludes_all])
  have "emergency_fallback 739320 (now booked_today) = Some (480, 495)"
    unfolding n by (subst emergency_fallback_value) (simp_all add: date_max_def)
  with loop have s1: "emergency_slots booked_today 739320 = Some [(480, 495)]"
    by (simp add: emergency_slots_before_last_day date_max_def n e)
  have "emergency_fallback 739320 (now booked_today_later) = Some (555, 570)"
    unfolding n by (subst emergency_fallback_value) (simp_all add: date_max_def)
  with loop have s2: "emergency_slots booked_today_later 739320 = Some [(555, 570)]"
    by (simp add: emergency_slots_before_last_day date_max_def n e)
  have "get_available_slots booked_today =
     Inr \<lparr>slots = [\<lparr>start = ''08:00'', end' = ''08:15'',
                     display = ''08:00 - 08:15 (Emergency)''\<rparr>],
          message = Some ''Emergency appointments are available 24/7'',
          warning = None\<rparr>"
    unfolding get_available_slots_emergency [OF accepted_examples(3) i(1) d(1)] s1
    by (simp add: slot_dict_def strftime_HM_def two_digits_def)
  moreover have "get_available_slots booked_today_later =
     Inr \<lparr>slots = [\<lparr>start = ''09:15'', end' = ''09:30'',
                     display = ''09:15 - 09:30 (Emergency)''\<rparr>],
          message = Some ''Emergency appointments are available 24/7'',
          warning = None\<rparr>"
    unfolding get_available_slots_emergency [OF accepted_examples(5) i(2) d(2)] s2
    by (simp add: slot_dict_def strftime_HM_def two_digits_def)
  ultimately show ?thesis
    using n(1) by (simp add: booked_today_later_def)
qed

subsection \<open>C9: no fallback on other dates\<close>

text \<open>
  Claim C9. The fallback slot is added only when the requested date is today's: an
  emergency request for another date, with every candidate excluded by an appointment,
  is answered with an empty list of slots. Before 9999-12-31 it is (lemma
  \<open>no_fallback_on_other_dates\<close>). On 9999-12-31 it is not: the emergency loop adds 15
  minutes to 23:45 before it cuts the candidate at 23:59, the sum is past the last
  \<^verbatim>\<open>datetime\<close>, Python raises \<^verbatim>\<open>OverflowError\<close>, and the view answers with its error for
  an unexpected exception, HTTP 500, in place of the empty list.
\<close>

theorem emergency_last_day_error:
  "is_emergency booked_last_day \<and>
   existing_appointments booked_last_day = [\<lparr>start_time = 0, end_time = 1439\<rparr>] \<and>
   date_parsed booked_last_day = Some date_max \<and>
   now_date (now booked_last_day) = 739320 \<and>
   plus_timedelta date_max 1425 15 = None \<and>
   get_available_slots booked_last_day = Inl Error_processing"
proof -
  have f: "is_emergency booked_last_day"
    "existing_appointments booked_last_day = [\<lparr>start_time = 0, end_time = 1439\<rparr>]"
    "date_parsed booked_last_day = Some date_max"
    "now_date (now booked_last_day) = 739320"
    by (simp_all add: booked_last_day_def booked_today_def plain_request_def date_max_def)
  have "plus_timedelta date_max 1425 15 = None"
    by (simp add: plus_timedelta_def)
  moreover have "get_available_slots booked_last_day = Inl Error_processing"
    unfolding get_available_slots_emergency [OF accepted_examples(7) f(1,3)]
    by (simp add: emergency_slots_last_day)
  ultimately show ?thesis
    using f by simp
qed

subsection \<open>C10: the length of a slot\<close>

text \<open>
  Claim C10. Every candidate, and so every slot the loop keeps, starts before it ends
  and lasts at most the step of the loop; one that is shorter than the step ends at the
  end of the window and is the last candidate. The last candidate of the emergency loop
  runs from 23:45 to 23:59.
\<close>

theorem slot_duration:
  "((a, b) \<in> set (candidates g s e) \<longrightarrow>
      a < b \<and> b - a \<le> g \<and> (b - a < g \<longrightarrow> b = e \<and> last (candidates g s e) = (a, b))) \<and>
   ((a, b) \<in> set (slot_loop g doctor_leave appts s e) \<longrightarrow>
      a < b \<and> b - a \<le> g \<and> (b - a < g \<longrightarrow> b = e \<and> last (candidates g s e) = (a, b)))"
proof -
  have main: "a < b \<and> b - a \<le> g \<and> (b - a < g \<longrightarrow> b = e \<and> last (candidates g s e) = (a, b))"
    if mem: "(a, b) \<in> set (candidates g s e)"
  proof (intro conjI impI)
    from candidates_bounds [OF mem]
    have bounds: "a < b" "b = a + g \<or> (b = e \<and> e < a + g)" by simp_all
    show "a < b" by (rule bounds)
    show "b - a \<le> g" using bounds by arith
    assume "b - a < g"
    with bounds show "b = e" by arith
    then show "last (candidates g s e) = (a, b)" by (rule candidates_last [OF mem])
  qed
  have sub: "(a, b) \<in> set (candidates g s e)"
    if "(a, b) \<in> set (slot_loop g doctor_leave appts s e)"
    using that slot_loop_subset [of g doctor_leave appts s e] by (rule subsetD [rotated])
  show ?thesis
  proof (intro conjI impI)
    assume "(a, b) \<in> set (candidates g s e)"
    from main [OF this] show "a < b" "b - a \<le> g" by simp_all
  next
    assume "(a, b) \<in> set (candidates g s e)" "b - a < g"
    with main show "b = e" "last (candidates g s e) = (a, b)" by simp_all
  next
    assume "(a, b) \<in> set (slot_loop g doctor_leave appts s e)"
    from main [OF sub [OF this]] show "a < b" "b - a \<le> g" by simp_all
  next
    assume "(a, b) \<in> set (slot_loop g doctor_leave appts s e)" "b - a < g"
    with main sub show "b = e" "last (candidates g s e) = (a, b)" by simp_all
  qed
qed

theorem slot_duration_witness:
  "(1425, 1439) \<in> set (slot_loop 15 None [] 0 (23 * 60 + 59)) \<and>
   last (candidates 15 0 (23 * 60 + 59)) = (1425, 1439) \<and>
   (0, 15) \<in> set (slot_loop 15 None [] 0 (23 * 60 + 59))"
proof -
  have eq: "slot_loop 15 None [] 0 (23 * 60 + 59) = candidates 15 0 (23 * 60 + 59)"
    by (simp add: slot_loop_filter overlaps_leave_def)
  have m: "(1425, 1439) \<in> set (slot_loop 15 None [] 0 (23 * 60 + 59))"
    unfolding eq candidates_emergency set_map set_upt
    by (rule image_eqI [where x = 95]) simp_all
  have m0: "(0, 15) \<in> set (slot_loop 15 None [] 0 (23 * 60 + 59))"
    unfolding eq candidates_emergency set_map set_upt
    by (rule image_eqI [where x = 0]) simp_all
  from slot_duration [of 1425 1439 15 0 "23 * 60 + 59" None "[]"] m
  have "last (candidates 15 0 (23 * 60 + 59)) = (1425, 1439)" by simp
  with m m0 show ?thesis by simp
qed

end
